theory Spec2Isabelle
  imports Complex_Main "HOL-Library.Sublist"
begin

section \<open>XAUCopilot: the price-indicator tool and the news tool\<close>

text \<open>
  The two tools of \<^verbatim>\<open>xaucopilot.py\<close> are modelled as pure functions of what the
  external providers hand back. Finite floating-point numbers are modelled as exact
  rationals; a value that pandas may leave undefined (NaN) is an \<open>option\<close>, and the
  columns that come out of a division carry the infinities as well. Signed zeros are not
  modelled, and the indicator columns are computed without rounding errors. The final
  \<^verbatim>\<open>round(2)\<close> is the one place where the rounding of binary floating point decides
  a digit that is shown, so there the rounding to a double is explicit.
\<close>

subsection \<open>Exceptions\<close>

text \<open>
  A raised exception is an instance of \<^verbatim>\<open>BaseException\<close>. \<open>Exception msg\<close> is an
  instance of the class \<^verbatim>\<open>Exception\<close> or of a subclass of it; \<open>BaseException msg\<close> is
  an instance of a class that derives from \<^verbatim>\<open>BaseException\<close> but not from
  \<^verbatim>\<open>Exception\<close>, such as \<^verbatim>\<open>KeyboardInterrupt\<close>, \<^verbatim>\<open>SystemExit\<close> or
  \<^verbatim>\<open>GeneratorExit\<close>. \<open>str\<close> is \<^verbatim>\<open>str(e)\<close>. A computation that may raise returns
  \<open>Inl e\<close> when it raises \<open>e\<close>.
\<close>

datatype exn = Exception string | BaseException string

fun str :: "exn \<Rightarrow> string" where
  "str (Exception msg) = msg"
| "str (BaseException msg) = msg"

fun isinstance_Exception :: "exn \<Rightarrow> bool" where
  "isinstance_Exception (Exception msg) = True"
| "isinstance_Exception (BaseException msg) = False"

type_synonym 'a py = "exn + 'a"

text \<open>
  \<^verbatim>\<open>try: body  except Exception as e: handler\<close>: the handler runs for an instance of
  \<^verbatim>\<open>Exception\<close>; any other exception of the body propagates.
\<close>

definition try_except :: "string py \<Rightarrow> (exn \<Rightarrow> string py) \<Rightarrow> string py" where
  "try_except body handler =
     (case body of
        Inl e \<Rightarrow> if isinstance_Exception e then handler e else Inl e
      | Inr v \<Rightarrow> Inr v)"

subsection \<open>Bars and 4-hour resampling\<close>

text \<open>
  One row of the frame returned by \<^verbatim>\<open>history(period="1mo", interval="1h")\<close>. The
  timestamp counts seconds on a clock whose zero is a midnight of the index's time
  zone, so that the 4-hour bins of \<^verbatim>\<open>resample('4h')\<close> start at the multiples of
  14400. A price field that is NaN in the frame is \<open>None\<close>.
\<close>

record bar =
  timestamp :: int
  Open :: "rat option"
  High :: "rat option"
  Low :: "rat option"
  Close :: "rat option"

text \<open>One row after \<^verbatim>\<open>.agg(ohlc_dict)\<close>: the bin's label and the four aggregates.\<close>

record agg_row =
  alabel :: int
  aOpen :: "rat option"
  aHigh :: "rat option"
  aLow :: "rat option"
  aClose :: "rat option"

text \<open>One row of \<^verbatim>\<open>data_4h\<close>, that is after \<^verbatim>\<open>.dropna()\<close>: all four fields are numbers.\<close>

record row =
  rts :: int
  rOpen :: rat
  rHigh :: rat
  rLow :: rat
  rClose :: rat

definition bin_of :: "int \<Rightarrow> int" where
  "bin_of t = t div 14400"

definition label_of :: "int \<Rightarrow> int" where
  "label_of k = 14400 * k"

text \<open>
  The aggregators named in \<^verbatim>\<open>ohlc_dict\<close>. Each of pandas' \<^verbatim>\<open>first\<close>, \<^verbatim>\<open>max\<close>,
  \<^verbatim>\<open>min\<close> and \<^verbatim>\<open>last\<close> skips NaN and yields NaN for a group with no number in it.
\<close>

fun agg_first :: "rat option list \<Rightarrow> rat option" where
  "agg_first [] = None"
| "agg_first (Some v # xs) = Some v"
| "agg_first (None # xs) = agg_first xs"

fun agg_last :: "rat option list \<Rightarrow> rat option" where
  "agg_last [] = None"
| "agg_last (x # xs) = (case agg_last xs of Some v \<Rightarrow> Some v | None \<Rightarrow> x)"

fun agg_max :: "rat option list \<Rightarrow> rat option" where
  "agg_max [] = None"
| "agg_max (None # xs) = agg_max xs"
| "agg_max (Some v # xs) = (case agg_max xs of None \<Rightarrow> Some v | Some m \<Rightarrow> Some (max v m))"

fun agg_min :: "rat option list \<Rightarrow> rat option" where
  "agg_min [] = None"
| "agg_min (None # xs) = agg_min xs"
| "agg_min (Some v # xs) = (case agg_min xs of None \<Rightarrow> Some v | Some m \<Rightarrow> Some (min v m))"

definition agg :: "int \<Rightarrow> bar list \<Rightarrow> agg_row" where
  "agg k w = \<lparr>alabel = label_of k, aOpen = agg_first (map Open w), aHigh = agg_max (map High w),
              aLow = agg_min (map Low w), aClose = agg_last (map Close w)\<rparr>"

text \<open>
  \<^verbatim>\<open>history.resample('4h')\<close>: the rows are put in time order by a stable sort, and
  there is one group for every 4-hour bin from the bin of the first row to the bin of
  the last one, also for a bin that no row falls into.
\<close>

definition window_bars :: "bar list \<Rightarrow> int \<Rightarrow> bar list" where
  "window_bars h k = filter (\<lambda>b. bin_of (timestamp b) = k) (sort_key timestamp h)"

definition resample_agg :: "bar list \<Rightarrow> agg_row list" where
  "resample_agg h =
     (let s = sort_key timestamp h in
      if s = [] then []
      else map (\<lambda>k. agg k (window_bars h k))
             [bin_of (timestamp (hd s)) .. bin_of (timestamp (last s))])"

text \<open>\<^verbatim>\<open>.dropna()\<close> keeps the rows in which no field is NaN.\<close>

definition to_row :: "agg_row \<Rightarrow> row option" where
  "to_row a =
     (case (aOpen a, aHigh a, aLow a, aClose a) of
        (Some op, Some hi, Some lo, Some cl) \<Rightarrow>
          Some \<lparr>rts = alabel a, rOpen = op, rHigh = hi, rLow = lo, rClose = cl\<rparr>
      | _ \<Rightarrow> None)"

definition dropna :: "agg_row list \<Rightarrow> row list" where
  "dropna rows = List.map_filter to_row rows"

definition data_4h :: "bar list \<Rightarrow> row list" where
  "data_4h history = dropna (resample_agg history)"

text \<open>The numbers a window contributes to one column, in time order.\<close>

definition observations :: "(bar \<Rightarrow> rat option) \<Rightarrow> bar list \<Rightarrow> rat list" where
  "observations f w = List.map_filter f w"

subsection \<open>Floating-point values after a division\<close>

text \<open>
  \<^verbatim>\<open>gain / loss\<close> divides two float columns: a division by zero does not raise, it
  yields an infinity or NaN. The three arithmetic operations the RSI lines use follow
  the IEEE rules for these special values.
\<close>

datatype fl = Fin rat | PInf | NInf | NaN

fun of_opt :: "rat option \<Rightarrow> fl" where
  "of_opt None = NaN"
| "of_opt (Some q) = Fin q"

fun fl_neg :: "fl \<Rightarrow> fl" where
  "fl_neg (Fin a) = Fin (- a)"
| "fl_neg PInf = NInf"
| "fl_neg NInf = PInf"
| "fl_neg NaN = NaN"

fun fl_add :: "fl \<Rightarrow> fl \<Rightarrow> fl" where
  "fl_add NaN y = NaN"
| "fl_add x NaN = NaN"
| "fl_add (Fin a) (Fin b) = Fin (a + b)"
| "fl_add PInf NInf = NaN"
| "fl_add NInf PInf = NaN"
| "fl_add PInf y = PInf"
| "fl_add NInf y = NInf"
| "fl_add (Fin a) y = y"

definition fl_sub :: "fl \<Rightarrow> fl \<Rightarrow> fl" where
  "fl_sub x y = fl_add x (fl_neg y)"

fun fl_div :: "fl \<Rightarrow> fl \<Rightarrow> fl" where
  "fl_div NaN y = NaN"
| "fl_div x NaN = NaN"
| "fl_div (Fin a) (Fin b) =
     (if b \<noteq> 0 then Fin (a / b) else if 0 < a then PInf else if a < 0 then NInf else NaN)"
| "fl_div (Fin a) y = Fin 0"
| "fl_div PInf (Fin b) = (if 0 \<le> b then PInf else NInf)"
| "fl_div NInf (Fin b) = (if 0 \<le> b then NInf else PInf)"
| "fl_div x y = NaN"

subsection \<open>The indicator columns\<close>

text \<open>\<^verbatim>\<open>Series.diff()\<close>: the first entry is NaN, each later one the step from its predecessor.\<close>

definition diff :: "rat list \<Rightarrow> rat option list" where
  "diff xs = (case xs of [] \<Rightarrow> [] | x # rest \<Rightarrow> None # map2 (\<lambda>a b. Some (b - a)) xs rest)"

text \<open>
  \<^verbatim>\<open>delta.where(cond, 0)\<close> for an elementwise comparison \<open>cond\<close> of \<open>delta\<close> itself:
  an entry is kept where the comparison holds and replaced by 0 elsewhere. A comparison
  with NaN is false, so the result holds no NaN.
\<close>

definition where_or_0 :: "(rat \<Rightarrow> bool) \<Rightarrow> rat option list \<Rightarrow> rat list" where
  "where_or_0 cond ds = map (\<lambda>d. case d of None \<Rightarrow> 0 | Some v \<Rightarrow> if cond v then v else 0) ds"

text \<open>
  \<^verbatim>\<open>.rolling(window=w).mean()\<close> on a column without NaN: \<^verbatim>\<open>min_periods\<close> defaults
  to the window size, so the first \<open>w - 1\<close> entries are NaN and each later entry is the
  mean of the \<open>w\<close> entries that end at it.
\<close>

definition rolling_mean :: "nat \<Rightarrow> rat list \<Rightarrow> rat option list" where
  "rolling_mean w xs =
     map (\<lambda>i. if i + 1 < w then None
              else Some (sum_list (take w (drop (i + 1 - w) xs)) / of_nat w))
         [0..<length xs]"

definition delta :: "rat list \<Rightarrow> rat option list" where
  "delta closes = diff closes"

definition gain :: "rat list \<Rightarrow> rat option list" where
  "gain closes = rolling_mean 14 (where_or_0 (\<lambda>d. d > 0) (delta closes))"

definition loss :: "rat list \<Rightarrow> rat option list" where
  "loss closes = rolling_mean 14 (map uminus (where_or_0 (\<lambda>d. d < 0) (delta closes)))"

definition rs :: "rat list \<Rightarrow> fl list" where
  "rs closes = map2 (\<lambda>g l. fl_div (of_opt g) (of_opt l)) (gain closes) (loss closes)"

definition RSI :: "rat list \<Rightarrow> fl list" where
  "RSI closes = map (\<lambda>r. fl_sub (Fin 100) (fl_div (Fin 100) (fl_add (Fin 1) r))) (rs closes)"

text \<open>
  \<^verbatim>\<open>.ewm(span=s, adjust=False).mean()\<close> on a column without NaN, as pandas computes
  it: the centre of mass is \<open>(s - 1) / 2\<close>, \<open>alpha = 1 / (1 + com)\<close>, the first output is
  the first value, and each later value \<open>cur\<close> replaces the running average
  \<open>weighted\<close> by \<open>(old_wt * weighted + new_wt * cur) / (old_wt + new_wt)\<close> with
  \<open>old_wt = 1 - alpha\<close> and \<open>new_wt = alpha\<close>; the update is skipped when
  \<open>weighted = cur\<close>.
\<close>

fun ewm_loop :: "rat \<Rightarrow> rat \<Rightarrow> rat \<Rightarrow> rat list \<Rightarrow> rat list" where
  "ewm_loop old_wt_factor new_wt weighted [] = []"
| "ewm_loop old_wt_factor new_wt weighted (cur # vals) =
     (let old_wt = 1 * old_wt_factor;
          weighted' = (if weighted \<noteq> cur
                       then (old_wt * weighted + new_wt * cur) / (old_wt + new_wt)
                       else weighted)
      in weighted' # ewm_loop old_wt_factor new_wt weighted' vals)"

definition ewm_mean :: "rat \<Rightarrow> rat list \<Rightarrow> rat list" where
  "ewm_mean spn vals =
     (case vals of [] \<Rightarrow> []
      | v # rest \<Rightarrow>
          (let com = (spn - 1) / 2; alpha = 1 / (1 + com)
           in v # ewm_loop (1 - alpha) alpha v rest))"

definition EMA_50 :: "rat list \<Rightarrow> rat list" where
  "EMA_50 closes = ewm_mean 50 closes"

subsection \<open>The table the price tool renders\<close>

text \<open>One row of \<^verbatim>\<open>data_4h[['Close', 'RSI', 'EMA_50']]\<close>, indexed by the bin's label.\<close>

record out_row =
  ots :: int
  oClose :: fl
  oRSI :: fl
  oEMA_50 :: fl

definition indicator_rows :: "row list \<Rightarrow> out_row list" where
  "indicator_rows d =
     (let closes = map rClose d in
      map2 (\<lambda>r (x, e). \<lparr>ots = rts r, oClose = Fin (rClose r), oRSI = x, oEMA_50 = Fin e\<rparr>)
        d (zip (RSI closes) (EMA_50 closes)))"

definition tail :: "nat \<Rightarrow> 'a list \<Rightarrow> 'a list" where
  "tail n xs = drop (length xs - n) xs"

text \<open>
  The rounding of an exact value to a double is a parameter \<open>rnd\<close> of the model:
  \<open>rnd q\<close> is the double nearest to \<open>q\<close>, and \<open>None\<close> when \<open>q\<close> is too large in
  magnitude for a double, in which case the operation yields the infinity of the sign
  of \<open>q\<close>. A rounding never yields NaN.
\<close>

type_synonym rounding = "rat \<Rightarrow> rat option"

definition fl_rnd :: "rounding \<Rightarrow> rat \<Rightarrow> fl" where
  "fl_rnd rnd q = (case rnd q of Some r \<Rightarrow> Fin r | None \<Rightarrow> if 0 < q then PInf else NInf)"

text \<open>
  \<^verbatim>\<open>.round(2)\<close> is numpy's rounding to two decimals: the float product of the value
  and 100 is rounded to the nearest integer, a tie going to the even one
  (\<^verbatim>\<open>rint\<close>), and the result is divided by 100 in floats. NaN and the infinities pass
  through the three steps unchanged.
\<close>

definition rint :: "rat \<Rightarrow> int" where
  "rint x =
     (let f = \<lfloor>x\<rfloor>; d = x - of_int f in
      if d < 1 / 2 then f else if 1 / 2 < d then f + 1 else if even f then f else f + 1)"

fun times_100 :: "rounding \<Rightarrow> fl \<Rightarrow> fl" where
  "times_100 rnd (Fin q) = fl_rnd rnd (q * 100)"
| "times_100 rnd x = x"

fun fl_rint :: "fl \<Rightarrow> fl" where
  "fl_rint (Fin q) = Fin (of_int (rint q))"
| "fl_rint x = x"

fun div_100 :: "rounding \<Rightarrow> fl \<Rightarrow> fl" where
  "div_100 rnd (Fin q) = fl_rnd rnd (q / 100)"
| "div_100 rnd x = x"

definition round2 :: "rounding \<Rightarrow> fl \<Rightarrow> fl" where
  "round2 rnd x = div_100 rnd (fl_rint (times_100 rnd x))"

definition round_row :: "rounding \<Rightarrow> out_row \<Rightarrow> out_row" where
  "round_row rnd r = r\<lparr>oClose := round2 rnd (oClose r), oRSI := round2 rnd (oRSI r),
                       oEMA_50 := round2 rnd (oEMA_50 r)\<rparr>"

definition final_df :: "rounding \<Rightarrow> bar list \<Rightarrow> out_row list" where
  "final_df rnd history = map (round_row rnd) (tail 12 (indicator_rows (data_4h history)))"

text \<open>
  The rounding of IEEE 754 binary64, to the nearest double with a tie going to the even
  mantissa. For \<open>2 ^ e \<le> \<bar>q\<bar> < 2 ^ (e + 1)\<close> the doubles around \<open>q\<close> are the multiples
  of \<open>2 ^ (e - 52)\<close>, and of \<open>2 ^ (- 1074)\<close> below the normal range; a result of
  \<open>2 ^ 1024\<close> or more is an overflow. \<open>floor_log2 a\<close> is the \<open>e\<close> with
  \<open>2 ^ e \<le> a < 2 ^ (e + 1)\<close>, for a positive \<open>a\<close>.
\<close>

definition pow2 :: "int \<Rightarrow> rat" where
  "pow2 e = (if 0 \<le> e then 2 ^ nat e else 1 / 2 ^ nat (- e))"

function bitlength :: "int \<Rightarrow> int" where
  "bitlength n = (if n \<le> 0 then 0 else 1 + bitlength (n div 2))"
  by pat_completeness auto
termination
  by (relation "measure nat") auto

definition floor_log2 :: "rat \<Rightarrow> int" where
  "floor_log2 a =
     (let (n, d) = quotient_of a;
          e = bitlength n - bitlength d
      in if pow2 e \<le> a then e else e - 1)"

definition binary64 :: rounding where
  "binary64 q =
     (if q = 0 then Some 0
      else
        (let a = \<bar>q\<bar>;
             p = max (floor_log2 a) (- 1022) - 52;
             r = of_int (rint (a / pow2 p)) * pow2 p
         in if r \<noteq> 0 \<and> 1024 \<le> floor_log2 r then None
            else Some (if q < 0 then - r else r)))"

subsection \<open>Tool 1: the price fetcher\<close>

text \<open>
  \<open>yf_history ticker period interval\<close> stands for
  \<^verbatim>\<open>yf.Ticker(ticker).history(period=..., interval=...)\<close>: it raises or returns the
  rows of a frame. \<open>to_string\<close> stands for \<^verbatim>\<open>DataFrame.to_string\<close>. The frame is
  \<^verbatim>\<open>empty\<close> when it has no row. The body returns early on an empty frame; the
  handler turns an exception of the body into a string. The diagnostic line that each
  tool prints first is not part of the model.
\<close>

type_synonym provider = "string \<Rightarrow> string \<Rightarrow> string \<Rightarrow> bar list py"

definition XAUPriceFetchTool_body ::
    "rounding \<Rightarrow> provider \<Rightarrow> (out_row list \<Rightarrow> string) \<Rightarrow> string \<Rightarrow> string py" where
  "XAUPriceFetchTool_body rnd yf_history to_string query =
     (case yf_history ''GC=F'' ''1mo'' ''1h'' of
        Inl e \<Rightarrow> Inl e
      | Inr history \<Rightarrow>
          if history = [] then Inr ''Error: Could not fetch data.''
          else Inr (to_string (final_df rnd history)))"

definition XAUPriceFetchTool_run ::
    "rounding \<Rightarrow> provider \<Rightarrow> (out_row list \<Rightarrow> string) \<Rightarrow> string \<Rightarrow> string py" where
  "XAUPriceFetchTool_run rnd yf_history to_string query =
     try_except (XAUPriceFetchTool_body rnd yf_history to_string query)
       (\<lambda>e. Inr (''Error processing data: '' @ str e))"

subsection \<open>Tool 2: the news search\<close>

text \<open>
  A search result is a dictionary from field names to text.
  \<open>ddgs_text query max_results timelimit\<close> stands for the iteration over
  \<^verbatim>\<open>ddgs.text(query, max_results=..., timelimit=...)\<close> inside the \<^verbatim>\<open>with\<close> block: it
  raises or yields the results in order.
\<close>

type_synonym result = "string \<rightharpoonup> string"

type_synonym search = "string \<Rightarrow> nat \<Rightarrow> string \<Rightarrow> result list py"

definition get :: "result \<Rightarrow> string \<Rightarrow> string \<Rightarrow> string" where
  "get r key dflt = (case r key of None \<Rightarrow> dflt | Some v \<Rightarrow> v)"

definition nl :: string where
  "nl = [CHR 0x0A]"

definition format_result :: "result \<Rightarrow> string" where
  "format_result r =
     (let title = get r ''title'' ''No Title'';
          body = get r ''body'' ''No snippet'';
          date = get r ''date'' ''Unknown Date''
      in ''NEWS TITLE: '' @ title @ nl @ ''DATE: '' @ date @ nl @ ''SNIPPET: '' @ body @ nl @ ''---'')"

fun join :: "string \<Rightarrow> string list \<Rightarrow> string" where
  "join sep [] = []"
| "join sep [x] = x"
| "join sep (x # y # ys) = x @ sep @ join sep (y # ys)"

definition NewsSearchTool_body :: "search \<Rightarrow> string \<Rightarrow> string py" where
  "NewsSearchTool_body ddgs_text query =
     (case ddgs_text query 3 ''d'' of
        Inl e \<Rightarrow> Inl e
      | Inr search_gen \<Rightarrow>
          (let results = map format_result search_gen in
           if results = [] then Inr ''No news found in the last 24 hours. Assume Neutral.''
           else Inr (join nl results)))"

definition NewsSearchTool_run :: "search \<Rightarrow> string \<Rightarrow> string py" where
  "NewsSearchTool_run ddgs_text query =
     try_except (NewsSearchTool_body ddgs_text query)
       (\<lambda>e. Inr (''Search Error: '' @ str e))"

subsection \<open>The reference formulas of the specification\<close>

text \<open>
  The exponential moving average as the specification words it: seeded by the first
  close, and \<open>EMA i = alpha * close i + (1 - alpha) * EMA (i - 1)\<close> afterwards.
\<close>

fun ema_spec :: "rat \<Rightarrow> rat list \<Rightarrow> nat \<Rightarrow> rat" where
  "ema_spec alpha closes 0 = closes ! 0"
| "ema_spec alpha closes (Suc i) =
     alpha * closes ! Suc i + (1 - alpha) * ema_spec alpha closes i"

text \<open>
  The RSI as the specification words it. The per-step delta at position \<open>j\<close> is the
  step from the close before it; the trailing window of position \<open>i\<close> is the 14
  positions that end at \<open>i\<close>; the average gain is the mean over the window of the
  positive deltas, a negative one counting as 0, and the average loss
  is the mean of the magnitudes of the negative deltas, a positive one counting as 0.
  \<open>RS = gain / loss\<close> and \<open>RSI = 100 - 100 / (1 + RS)\<close> are evaluated with the
  program's arithmetic, so that a zero loss is a division by zero there too.
\<close>

definition trailing :: "nat \<Rightarrow> nat list" where
  "trailing i = [i - 13 ..< i + 1]"

definition step_delta :: "rat list \<Rightarrow> nat \<Rightarrow> rat" where
  "step_delta closes j = closes ! j - closes ! (j - 1)"

definition avg_gain_spec :: "rat list \<Rightarrow> nat \<Rightarrow> rat" where
  "avg_gain_spec closes i =
     sum_list (map (\<lambda>j. if 0 < step_delta closes j then step_delta closes j else 0)
                 (trailing i)) / 14"

definition avg_loss_spec :: "rat list \<Rightarrow> nat \<Rightarrow> rat" where
  "avg_loss_spec closes i =
     sum_list (map (\<lambda>j. if step_delta closes j < 0 then \<bar>step_delta closes j\<bar> else 0)
                 (trailing i)) / 14"

definition rsi_spec :: "rat list \<Rightarrow> nat \<Rightarrow> fl" where
  "rsi_spec closes i =
     (let RS = fl_div (Fin (avg_gain_spec closes i)) (Fin (avg_loss_spec closes i))
      in fl_sub (Fin 100) (fl_div (Fin 100) (fl_add (Fin 1) RS)))"

text \<open>
  The entries of the two columns that the program averages, by position: the entry
  at position 0 is 0, since the first delta is NaN.
\<close>

definition up_move :: "rat list \<Rightarrow> nat \<Rightarrow> rat" where
  "up_move closes j = (if 0 < j \<and> 0 < step_delta closes j then step_delta closes j else 0)"

definition down_move :: "rat list \<Rightarrow> nat \<Rightarrow> rat" where
  "down_move closes j = (if 0 < j \<and> step_delta closes j < 0 then - step_delta closes j else 0)"

subsection \<open>Example inputs\<close>



text \<open>Providers that raise, and a rendering that ignores its table.\<close>

definition interrupted_provider :: provider where
  "interrupted_provider ticker period interval = Inl (BaseException ''KeyboardInterrupt'')"

definition interrupted_search :: search where
  "interrupted_search query max_results timelimit = Inl (BaseException ''KeyboardInterrupt'')"

definition failing_provider :: provider where
  "failing_provider ticker period interval = Inl (Exception ''timeout'')"

definition failing_search :: search where
  "failing_search query max_results timelimit = Inl (Exception ''timeout'')"

definition no_rendering :: "out_row list \<Rightarrow> string" where
  "no_rendering rows = ''table''"

section \<open>Properties\<close>

subsection \<open>Resampling\<close>

lemma agg_first_obs:
  "agg_first (map f w) = (case List.map_filter f w of [] \<Rightarrow> None | v # _ \<Rightarrow> Some v)"
proof (induction w)
  case Nil
  then show ?case by simp
next
  case (Cons b w)
  then show ?case by (cases "f b") simp_all
qed

lemma agg_last_obs:
  "agg_last (map f w) =
     (if List.map_filter f w = [] then None else Some (last (List.map_filter f w)))"
proof (induction w)
  case Nil
  then show ?case by simp
next
  case (Cons b w)
  then show ?case by (cases "f b") simp_all
qed

lemma agg_max_obs:
  "agg_max (map f w) =
     (if List.map_filter f w = [] then None else Some (Max (set (List.map_filter f w))))"
proof (induction w)
  case Nil
  then show ?case by simp
next
  case (Cons b w)
  then show ?case by (cases "f b") simp_all
qed

lemma agg_min_obs:
  "agg_min (map f w) =
     (if List.map_filter f w = [] then None else Some (Min (set (List.map_filter f w))))"
proof (induction w)
  case Nil
  then show ?case by simp
next
  case (Cons b w)
  then show ?case by (cases "f b") simp_all
qed

lemma to_row_agg:
  "to_row (agg k w) =
     (if observations Open w \<noteq> [] \<and> observations High w \<noteq> [] \<and>
         observations Low w \<noteq> [] \<and> observations Close w \<noteq> []
      then Some \<lparr>rts = label_of k, rOpen = hd (observations Open w),
                 rHigh = Max (set (observations High w)),
                 rLow = Min (set (observations Low w)),
                 rClose = last (observations Close w)\<rparr>
      else None)"
  by (simp add: to_row_def agg_def observations_def agg_first_obs agg_last_obs agg_max_obs
      agg_min_obs split: list.splits)

lemma to_row_label: "to_row (agg j w) = Some r \<Longrightarrow> rts r = label_of j"
  by (auto simp: to_row_agg split: if_splits)

lemma label_of_inj: "label_of j = label_of k \<longleftrightarrow> j = k"
  by (simp add: label_of_def)

lemma filter_label_map_filter:
  "filter (\<lambda>r. rts r = label_of k) (List.map_filter (\<lambda>j. to_row (agg j (W j))) js) =
   List.map_filter (\<lambda>j. to_row (agg j (W j))) (filter (\<lambda>j. j = k) js)"
proof (induction js)
  case Nil
  then show ?case by simp
next
  case (Cons j js)
  show ?case
  proof (cases "to_row (agg j (W j))")
    case None
    with Cons show ?thesis by auto
  next
    case (Some r)
    with Cons to_row_label [OF Some] show ?thesis
      by (auto simp: label_of_inj)
  qed
qed

lemma map_filter_map_comp: "List.map_filter g (map f xs) = List.map_filter (\<lambda>x. g (f x)) xs"
  by (induction xs) (simp_all split: option.splits)

lemma filter_eq_distinct:
  "distinct js \<Longrightarrow> filter (\<lambda>j. j = k) js = (if k \<in> set js then [k] else [])"
  by (induction js) auto

lemma window_outside_empty:
  assumes "sort_key timestamp h \<noteq> []"
    and "\<not> (bin_of (timestamp (hd (sort_key timestamp h))) \<le> k \<and>
            k \<le> bin_of (timestamp (last (sort_key timestamp h))))"
  shows "window_bars h k = []"
proof -
  let ?s = "sort_key timestamp h"
  have srt: "sorted (map timestamp ?s)" by simp
  have "bin_of (timestamp b) \<noteq> k" if b: "b \<in> set ?s" for b
  proof -
    from b obtain i where i: "i < length ?s" "?s ! i = b" by (metis in_set_conv_nth)
    have mono: "timestamp (?s ! a) \<le> timestamp (?s ! c)" if "a \<le> c" "c < length ?s" for a c
    proof -
      from that have "a < length ?s" by simp
      with sorted_nth_mono [OF srt, of a c] that show ?thesis by simp
    qed
    have "timestamp (?s ! 0) \<le> timestamp (?s ! i)"
      using mono [of 0 i] i by simp
    moreover have "timestamp (?s ! i) \<le> timestamp (?s ! (length ?s - 1))"
      using mono [of i "length ?s - 1"] i by simp
    ultimately have "timestamp (hd ?s) \<le> timestamp b" "timestamp b \<le> timestamp (last ?s)"
      using i assms(1) by (simp_all add: hd_conv_nth last_conv_nth)
    then have "bin_of (timestamp (hd ?s)) \<le> bin_of (timestamp b)"
      "bin_of (timestamp b) \<le> bin_of (timestamp (last ?s))"
      by (simp_all add: bin_of_def zdiv_mono1)
    with assms(2) show ?thesis by auto
  qed
  then show ?thesis by (auto simp: window_bars_def filter_empty_conv)
qed

lemma observations_complete:
  "\<forall>b \<in> set w. f b \<noteq> None \<Longrightarrow> observations f w = map (\<lambda>b. the (f b)) w"
  by (induction w) (auto simp: observations_def)

lemma resample_window:
  "filter (\<lambda>r. rts r = label_of k) (data_4h h) =
     (let w = window_bars h k in
      if observations Open w \<noteq> [] \<and> observations High w \<noteq> [] \<and>
         observations Low w \<noteq> [] \<and> observations Close w \<noteq> []
      then [\<lparr>rts = label_of k, rOpen = hd (observations Open w),
              rHigh = Max (set (observations High w)),
              rLow = Min (set (observations Low w)),
              rClose = last (observations Close w)\<rparr>]
      else [])"
proof (cases "sort_key timestamp h = []")
  case True
  then have "h = []" by (metis length_sort list.size(3) length_0_conv)
  then show ?thesis
    by (simp add: data_4h_def dropna_def resample_agg_def window_bars_def observations_def)
next
  case False
  let ?s = "sort_key timestamp h"
  let ?lo = "bin_of (timestamp (hd ?s))" and ?hi = "bin_of (timestamp (last ?s))"
  have "filter (\<lambda>r. rts r = label_of k) (data_4h h) =
      List.map_filter (\<lambda>j. to_row (agg j (window_bars h j))) (filter (\<lambda>j. j = k) [?lo..?hi])"
    using False
    by (simp add: data_4h_def dropna_def resample_agg_def Let_def map_filter_map_comp
        filter_label_map_filter)
  also have "filter (\<lambda>j. j = k) [?lo..?hi] = (if ?lo \<le> k \<and> k \<le> ?hi then [k] else [])"
    by (simp add: filter_eq_distinct)
  finally have eq: "filter (\<lambda>r. rts r = label_of k) (data_4h h) =
      List.map_filter (\<lambda>j. to_row (agg j (window_bars h j)))
        (if ?lo \<le> k \<and> k \<le> ?hi then [k] else [])" .
  show ?thesis
  proof (cases "?lo \<le> k \<and> k \<le> ?hi")
    case True
    with eq show ?thesis
      by (simp add: to_row_agg Let_def)
  next
    case out: False
    have "window_bars h k = []" by (rule window_outside_empty [OF False out])
    with eq out show ?thesis
      by (simp add: observations_def Let_def)
  qed
qed

text \<open>
  Claim C2. For every bar history and every 4-hour window, the resampled series holds
  at most one row labelled with that window. It holds one exactly when each of the four
  columns has an observation (a value that is not NaN) in the window, and then open is
  the first observation of Open, high the maximum of High, low the minimum of Low and
  close the last observation of Close, in time order. A window without bars, or with a
  column without observation, has no row. In particular a window whose bars are all
  complete has the open of its first bar, the maximum high, the minimum low and the
  close of its last bar.
\<close>

theorem resample_ohlc:
  "filter (\<lambda>r. rts r = label_of k) (data_4h h) =
     (let w = window_bars h k in
      if observations Open w \<noteq> [] \<and> observations High w \<noteq> [] \<and>
         observations Low w \<noteq> [] \<and> observations Close w \<noteq> []
      then [\<lparr>rts = label_of k, rOpen = hd (observations Open w),
              rHigh = Max (set (observations High w)),
              rLow = Min (set (observations Low w)),
              rClose = last (observations Close w)\<rparr>]
      else []) \<and>
   (window_bars h k \<noteq> [] \<and>
    (\<forall>b \<in> set (window_bars h k).
       Open b \<noteq> None \<and> High b \<noteq> None \<and> Low b \<noteq> None \<and> Close b \<noteq> None) \<longrightarrow>
    filter (\<lambda>r. rts r = label_of k) (data_4h h) =
      [\<lparr>rts = label_of k, rOpen = the (Open (hd (window_bars h k))),
        rHigh = Max ((\<lambda>b. the (High b)) ` set (window_bars h k)),
        rLow = Min ((\<lambda>b. the (Low b)) ` set (window_bars h k)),
        rClose = the (Close (last (window_bars h k)))\<rparr>])"
proof (intro conjI impI)
  show "filter (\<lambda>r. rts r = label_of k) (data_4h h) =
     (let w = window_bars h k in
      if observations Open w \<noteq> [] \<and> observations High w \<noteq> [] \<and>
         observations Low w \<noteq> [] \<and> observations Close w \<noteq> []
      then [\<lparr>rts = label_of k, rOpen = hd (observations Open w),
              rHigh = Max (set (observations High w)),
              rLow = Min (set (observations Low w)),
              rClose = last (observations Close w)\<rparr>]
      else [])"
    by (rule resample_window)
next
  let ?w = "window_bars h k"
  assume a: "?w \<noteq> [] \<and>
    (\<forall>b \<in> set ?w. Open b \<noteq> None \<and> High b \<noteq> None \<and> Low b \<noteq> None \<and> Close b \<noteq> None)"
  then have obs: "observations Open ?w = map (\<lambda>b. the (Open b)) ?w"
    "observations High ?w = map (\<lambda>b. the (High b)) ?w"
    "observations Low ?w = map (\<lambda>b. the (Low b)) ?w"
    "observations Close ?w = map (\<lambda>b. the (Close b)) ?w"
    by (simp_all add: observations_complete)
  from a have ne: "?w \<noteq> []" by simp
  show "filter (\<lambda>r. rts r = label_of k) (data_4h h) =
      [\<lparr>rts = label_of k, rOpen = the (Open (hd ?w)),
        rHigh = Max ((\<lambda>b. the (High b)) ` set ?w),
        rLow = Min ((\<lambda>b. the (Low b)) ` set ?w),
        rClose = the (Close (last ?w))\<rparr>]"
    using ne by (simp add: resample_window Let_def obs hd_map last_map)
qed

theorem resample_ohlc_witness:
  "window_bars [\<lparr>timestamp = 7200, Open = Some 11, High = Some 15, Low = Some 8, Close = Some 13\<rparr>,
                \<lparr>timestamp = 3600, Open = Some 10, High = Some 12, Low = Some 9, Close = Some 11\<rparr>,
                \<lparr>timestamp = 43200, Open = Some 13, High = Some 14, Low = Some 12, Close = Some 12\<rparr>] 0
     = [\<lparr>timestamp = 3600, Open = Some 10, High = Some 12, Low = Some 9, Close = Some 11\<rparr>,
        \<lparr>timestamp = 7200, Open = Some 11, High = Some 15, Low = Some 8, Close = Some 13\<rparr>] \<and>
   filter (\<lambda>r. rts r = label_of 0)
     (data_4h [\<lparr>timestamp = 7200, Open = Some 11, High = Some 15, Low = Some 8, Close = Some 13\<rparr>,
               \<lparr>timestamp = 3600, Open = Some 10, High = Some 12, Low = Some 9, Close = Some 11\<rparr>,
               \<lparr>timestamp = 43200, Open = Some 13, High = Some 14, Low = Some 12, Close = Some 12\<rparr>])
     = [\<lparr>rts = 0, rOpen = 10, rHigh = 15, rLow = 8, rClose = 13\<rparr>]"
proof -
  let ?h = "[\<lparr>timestamp = 7200, Open = Some 11, High = Some 15, Low = Some 8, Close = Some 13\<rparr>,
             \<lparr>timestamp = 3600, Open = Some 10, High = Some 12, Low = Some 9, Close = Some 11\<rparr>,
             \<lparr>timestamp = 43200, Open = Some 13, High = Some 14, Low = Some 12, Close = Some 12\<rparr>]"
  have w: "window_bars ?h 0 =
      [\<lparr>timestamp = 3600, Open = Some 10, High = Some 12, Low = Some 9, Close = Some 11\<rparr>,
       \<lparr>timestamp = 7200, Open = Some 11, High = Some 15, Low = Some 8, Close = Some 13\<rparr>]"
    by (simp add: window_bars_def bin_of_def)
  from resample_ohlc [of 0 ?h] have
    "window_bars ?h 0 \<noteq> [] \<and>
      (\<forall>b \<in> set (window_bars ?h 0).
         Open b \<noteq> None \<and> High b \<noteq> None \<and> Low b \<noteq> None \<and> Close b \<noteq> None) \<longrightarrow>
      filter (\<lambda>r. rts r = label_of 0) (data_4h ?h) =
        [\<lparr>rts = label_of 0, rOpen = the (Open (hd (window_bars ?h 0))),
          rHigh = Max ((\<lambda>b. the (High b)) ` set (window_bars ?h 0)),
          rLow = Min ((\<lambda>b. the (Low b)) ` set (window_bars ?h 0)),
          rClose = the (Close (last (window_bars ?h 0)))\<rparr>]"
    by (rule conjunct2)
  then have "filter (\<lambda>r. rts r = label_of 0) (data_4h ?h) =
      [\<lparr>rts = 0, rOpen = 10, rHigh = 15, rLow = 8, rClose = 13\<rparr>]"
    unfolding w by (simp add: label_of_def)
  with w show ?thesis by simp
qed

subsection \<open>RSI\<close>

lemma length_diff: "length (diff xs) = length xs"
  by (cases xs) (simp_all add: diff_def)

lemma diff_nth:
  "0 < j \<Longrightarrow> j < length xs \<Longrightarrow> diff xs ! j = Some (xs ! j - xs ! (j - 1))"
  by (cases xs; cases j) (simp_all add: diff_def)

lemma length_where_or_0: "length (where_or_0 P ds) = length ds"
  by (simp add: where_or_0_def)

lemma length_rolling_mean: "length (rolling_mean w xs) = length xs"
  by (simp add: rolling_mean_def)

lemma rolling_mean_nth:
  "i < length xs \<Longrightarrow>
   rolling_mean w xs ! i =
     (if i + 1 < w then None else Some (sum_list (take w (drop (i + 1 - w) xs)) / of_nat w))"
  by (simp add: rolling_mean_def)

lemma take_drop_upt:
  "m + n \<le> length xs \<Longrightarrow> take n (drop m xs) = map ((!) xs) [m ..< m + n]"
  by (simp add: list_eq_iff_nth_eq)

lemma window_14:
  assumes "13 \<le> i" "i < length xs"
  shows "take 14 (drop (i + 1 - 14) xs) = map ((!) xs) (trailing i)"
proof -
  have "i + 1 - 14 = i - 13" by simp
  moreover have "i - 13 + 14 = i + 1" using assms by simp
  moreover have "i - 13 + 14 \<le> length xs" using assms by simp
  ultimately show ?thesis using take_drop_upt [of "i - 13" 14 xs] by (simp add: trailing_def)
qed

lemma trailing_bounds: "j \<in> set (trailing i) \<longleftrightarrow> i - 13 \<le> j \<and> j \<le> i"
  by (auto simp: trailing_def)

lemma length_gain: "length (gain closes) = length closes"
  by (simp add: gain_def length_rolling_mean length_where_or_0 delta_def length_diff)

lemma length_loss: "length (loss closes) = length closes"
  by (simp add: loss_def length_rolling_mean length_where_or_0 delta_def length_diff)



lemma where_gt_nth:
  "j < length closes \<Longrightarrow> where_or_0 (\<lambda>d. d > 0) (delta closes) ! j = up_move closes j"
  by (cases j; cases closes)
     (simp_all add: where_or_0_def delta_def length_diff diff_nth up_move_def step_delta_def,
      simp_all add: diff_def)

lemma where_lt_nth:
  "j < length closes \<Longrightarrow>
   map uminus (where_or_0 (\<lambda>d. d < 0) (delta closes)) ! j = down_move closes j"
  by (cases j; cases closes)
     (simp_all add: where_or_0_def delta_def length_diff diff_nth down_move_def step_delta_def,
      simp_all add: diff_def)

lemma gain_nth:
  assumes "i < length closes"
  shows "gain closes ! i =
     (if i < 13 then None else Some (sum_list (map (up_move closes) (trailing i)) / 14))"
proof (cases "i < 13")
  case True
  with assms show ?thesis
    by (simp add: gain_def rolling_mean_nth length_where_or_0 delta_def length_diff)
next
  case False
  let ?xs = "where_or_0 (\<lambda>d. d > 0) (delta closes)"
  have len: "length ?xs = length closes" by (simp add: length_where_or_0 delta_def length_diff)
  have "take 14 (drop (i + 1 - 14) ?xs) = map ((!) ?xs) (trailing i)"
    using False assms len by (intro window_14) simp_all
  also have "\<dots> = map (up_move closes) (trailing i)"
    using assms by (intro map_cong) (auto simp: where_gt_nth trailing_bounds)
  finally show ?thesis using False assms len
    by (simp add: gain_def rolling_mean_nth)
qed

lemma loss_nth:
  assumes "i < length closes"
  shows "loss closes ! i =
     (if i < 13 then None else Some (sum_list (map (down_move closes) (trailing i)) / 14))"
proof (cases "i < 13")
  case True
  with assms show ?thesis
    by (simp add: loss_def rolling_mean_nth length_where_or_0 delta_def length_diff)
next
  case False
  let ?xs = "map uminus (where_or_0 (\<lambda>d. d < 0) (delta closes))"
  have len: "length ?xs = length closes" by (simp add: length_where_or_0 delta_def length_diff)
  have "take 14 (drop (i + 1 - 14) ?xs) = map ((!) ?xs) (trailing i)"
    using False assms len by (intro window_14) simp_all
  also have "\<dots> = map (down_move closes) (trailing i)"
    using assms by (intro map_cong) (auto simp: where_lt_nth trailing_bounds)
  finally show ?thesis using False assms len
    by (simp add: loss_def rolling_mean_nth)
qed

lemma RSI_nth:
  "i < length closes \<Longrightarrow>
   RSI closes ! i =
     fl_sub (Fin 100) (fl_div (Fin 100) (fl_add (Fin 1)
       (fl_div (of_opt (gain closes ! i)) (of_opt (loss closes ! i)))))"
  by (simp add: RSI_def rs_def length_gain length_loss)

lemma up_move_nonneg: "0 \<le> up_move closes j"
  by (simp add: up_move_def)

lemma down_move_nonneg: "0 \<le> down_move closes j"
  by (simp add: down_move_def)

lemma sum_list_map_nonneg: "(\<And>x. 0 \<le> f x) \<Longrightarrow> (0::rat) \<le> sum_list (map f xs)"
  by (induction xs) simp_all

text \<open>
  Claim C3. At every position of the close series that has at least 14 per-step deltas
  before and at it, the RSI column equals the reference formula of the specification.
\<close>

theorem rsi_matches_reference:
  assumes "14 \<le> i" "i < length closes"
  shows "RSI closes ! i = rsi_spec closes i"
proof -
  have pos: "0 < j" if "j \<in> set (trailing i)" for j
    using that assms by (auto simp: trailing_bounds)
  have g: "map (up_move closes) (trailing i) =
      map (\<lambda>j. if 0 < step_delta closes j then step_delta closes j else 0) (trailing i)"
    by (rule map_cong [OF refl]) (simp add: up_move_def pos)
  have l: "map (down_move closes) (trailing i) =
      map (\<lambda>j. if step_delta closes j < 0 then \<bar>step_delta closes j\<bar> else 0) (trailing i)"
    by (rule map_cong [OF refl]) (simp add: down_move_def pos)
  have "gain closes ! i = Some (sum_list (map (up_move closes) (trailing i)) / 14)"
    using assms by (simp add: gain_nth)
  then have "gain closes ! i = Some (avg_gain_spec closes i)"
    by (simp only: avg_gain_spec_def g)
  moreover have "loss closes ! i = Some (sum_list (map (down_move closes) (trailing i)) / 14)"
    using assms by (simp add: loss_nth)
  then have "loss closes ! i = Some (avg_loss_spec closes i)"
    by (simp only: avg_loss_spec_def l)
  ultimately show ?thesis
    using assms by (simp add: RSI_nth rsi_spec_def Let_def)
qed

theorem rsi_matches_reference_witness:
  "(14::nat) \<le> 14 \<and>
   14 < length [10, 11, 12, 13, 14, 15, 16, 17, 18, 19, 20, 21, 22, 23, 22 :: rat] \<and>
   RSI [10, 11, 12, 13, 14, 15, 16, 17, 18, 19, 20, 21, 22, 23, 22] ! 14 = Fin (650 / 7) \<and>
   rsi_spec [10, 11, 12, 13, 14, 15, 16, 17, 18, 19, 20, 21, 22, 23, 22] 14 = Fin (650 / 7)"
proof -
  have "rsi_spec [10, 11, 12, 13, 14, 15, 16, 17, 18, 19, 20, 21, 22, 23, 22] 14 = Fin (650 / 7)"
    by code_simp
  with rsi_matches_reference [of 14 "[10, 11, 12, 13, 14, 15, 16, 17, 18, 19, 20, 21, 22, 23, 22]"]
  show ?thesis by simp
qed

lemma sum_list_map_pos:
  "(\<And>x. 0 \<le> f x) \<Longrightarrow> x \<in> set xs \<Longrightarrow> 0 < f x \<Longrightarrow> (0::rat) < sum_list (map f xs)"
proof (induction xs)
  case Nil
  then show ?case by simp
next
  case (Cons y ys)
  have "0 \<le> sum_list (map f ys)" by (rule sum_list_map_nonneg) (rule Cons.prems(1))
  moreover have "0 \<le> f y" by (rule Cons.prems(1))
  ultimately show ?case using Cons by (cases "x = y") (auto intro: add_pos_nonneg add_nonneg_pos)
qed

lemma sum_list_map_zero: "(\<And>x. x \<in> set xs \<Longrightarrow> f x = 0) \<Longrightarrow> (0::rat) = sum_list (map f xs)"
  by (induction xs) simp_all

lemma rsi_value:
  assumes "0 \<le> g" "0 \<le> l"
  shows "fl_sub (Fin 100) (fl_div (Fin 100) (fl_add (Fin 1) (fl_div (Fin g) (Fin l)))) =
     (if 0 < l then Fin (100 * g / (g + l)) else if 0 < g then Fin 100 else NaN)"
proof (cases "0 < l")
  case True
  with assms have nz: "1 + g / l \<noteq> 0" "g + l \<noteq> 0" "l \<noteq> 0"
    by (simp_all add: add_nonneg_eq_0_iff add_pos_nonneg less_imp_neq [THEN not_sym])
  have "100 - 100 / (1 + g / l) = 100 * g / (g + l)"
    using nz by (simp add: field_simps)
  with True nz show ?thesis by (simp add: fl_sub_def)
next
  case False
  with assms have "l = 0" by simp
  then show ?thesis using assms by (simp add: fl_sub_def)
qed

lemma gain_after_warm_up:
  "13 \<le> i \<Longrightarrow> i < length closes \<Longrightarrow>
   gain closes ! i = Some (sum_list (map (up_move closes) (trailing i)) / 14)"
  by (simp add: gain_nth)

lemma loss_after_warm_up:
  "13 \<le> i \<Longrightarrow> i < length closes \<Longrightarrow>
   loss closes ! i = Some (sum_list (map (down_move closes) (trailing i)) / 14)"
  by (simp add: loss_nth)

lemma avg_up_nonneg: "0 \<le> sum_list (map (up_move closes) js) / 14"
  by (simp add: sum_list_map_nonneg up_move_nonneg)

lemma avg_down_nonneg: "0 \<le> sum_list (map (down_move closes) js) / 14"
  by (simp add: sum_list_map_nonneg down_move_nonneg)

lemma RSI_warm_up: "i < 13 \<Longrightarrow> i < length closes \<Longrightarrow> RSI closes ! i = NaN"
  by (simp add: RSI_nth gain_nth fl_sub_def)

lemma RSI_after_warm_up:
  assumes "13 \<le> i" "i < length closes"
  shows "\<exists>g l. gain closes ! i = Some g \<and> loss closes ! i = Some l \<and> 0 \<le> g \<and> 0 \<le> l \<and>
     RSI closes ! i = (if 0 < l then Fin (100 * g / (g + l)) else if 0 < g then Fin 100 else NaN)"
proof -
  let ?g = "sum_list (map (up_move closes) (trailing i)) / 14"
  let ?l = "sum_list (map (down_move closes) (trailing i)) / 14"
  have g: "gain closes ! i = Some ?g" by (rule gain_after_warm_up [OF assms])
  have l: "loss closes ! i = Some ?l" by (rule loss_after_warm_up [OF assms])
  have "RSI closes ! i =
      fl_sub (Fin 100) (fl_div (Fin 100) (fl_add (Fin 1) (fl_div (Fin ?g) (Fin ?l))))"
    by (simp only: RSI_nth [OF assms(2)] g l of_opt.simps)
  also have "\<dots> = (if 0 < ?l then Fin (100 * ?g / (?g + ?l)) else if 0 < ?g then Fin 100 else NaN)"
    by (rule rsi_value [OF avg_up_nonneg avg_down_nonneg])
  finally show ?thesis using g l avg_up_nonneg avg_down_nonneg by blast
qed

lemma ratio_bounds:
  assumes "0 \<le> g" "0 < l"
  shows "0 \<le> 100 * g / (g + l)" "100 * g / (g + l) \<le> (100::rat)"
proof -
  from assms have "0 < g + l" by (simp add: add_nonneg_pos)
  then show "0 \<le> 100 * g / (g + l)" using assms by simp
  from \<open>0 < g + l\<close> assms show "100 * g / (g + l) \<le> 100" by (simp add: field_simps)
qed

lemma RSI_range:
  assumes "i < length closes"
  shows "RSI closes ! i = NaN \<or> (\<exists>r. RSI closes ! i = Fin r \<and> 0 \<le> r \<and> r \<le> 100)"
proof (cases "i < 13")
  case True
  with assms show ?thesis by (simp add: RSI_warm_up)
next
  case False
  then have "13 \<le> i" by simp
  from RSI_after_warm_up [OF this assms] obtain g l where
    gl: "0 \<le> g" "0 \<le> l"
    "RSI closes ! i = (if 0 < l then Fin (100 * g / (g + l)) else if 0 < g then Fin 100 else NaN)"
    by blast
  then show ?thesis using ratio_bounds [of g l] by (auto split: if_splits)
qed

text \<open>
  Claim C4. Where the trailing average loss is strictly positive, the RSI is the
  number \<open>100 * gain / (gain + loss)\<close>, which lies between 0 and 100 and tends to 100
  as the loss tends to 0. Where every delta of the trailing window is strictly
  positive, the loss is 0, the division yields an infinity, and the RSI is 100.
\<close>

theorem rsi_bounded:
  "(\<forall>l. i < length closes \<and> loss closes ! i = Some l \<and> 0 < l \<longrightarrow>
      (\<exists>g r. gain closes ! i = Some g \<and> RSI closes ! i = Fin r \<and>
             r = 100 * g / (g + l) \<and> 0 \<le> r \<and> r \<le> 100)) \<and>
   (13 \<le> i \<and> i < length closes \<and>
      (\<forall>j. i - 13 \<le> j \<and> j \<le> i \<and> 0 < j \<longrightarrow> closes ! (j - 1) < closes ! j) \<longrightarrow>
      RSI closes ! i = Fin 100)"
proof (intro conjI allI impI)
  fix l
  assume a: "i < length closes \<and> loss closes ! i = Some l \<and> 0 < l"
  then have "13 \<le> i" by (auto simp: loss_nth split: if_splits)
  from RSI_after_warm_up [OF this, of closes] a obtain g where
    "gain closes ! i = Some g" "0 \<le> g" "RSI closes ! i = Fin (100 * g / (g + l))"
    by auto
  with a ratio_bounds [of g l]
  show "\<exists>g r. gain closes ! i = Some g \<and> RSI closes ! i = Fin r \<and>
             r = 100 * g / (g + l) \<and> 0 \<le> r \<and> r \<le> 100"
    by simp
next
  assume a: "13 \<le> i \<and> i < length closes \<and>
      (\<forall>j. i - 13 \<le> j \<and> j \<le> i \<and> 0 < j \<longrightarrow> closes ! (j - 1) < closes ! j)"
  then have i: "13 \<le> i" "i < length closes" by simp_all
  have up: "0 < j \<Longrightarrow> 0 < step_delta closes j" if "j \<in> set (trailing i)" for j
    using that a by (auto simp: step_delta_def trailing_bounds)
  have "down_move closes j = 0" if "j \<in> set (trailing i)" for j
    using up [OF that] by (auto simp: down_move_def)
  then have "0 = sum_list (map (down_move closes) (trailing i))"
    by (rule sum_list_map_zero)
  then have l0: "loss closes ! i = Some 0"
    using loss_after_warm_up [OF i] by simp
  have "i \<in> set (trailing i)" by (simp add: trailing_bounds)
  moreover from this have "0 < up_move closes i" using up [of i] i by (simp add: up_move_def)
  ultimately have "0 < sum_list (map (up_move closes) (trailing i))"
    by (intro sum_list_map_pos [of _ i]) (simp_all only: up_move_nonneg)
  then have "0 < sum_list (map (up_move closes) (trailing i)) / 14" by simp
  then have g0: "\<exists>g. gain closes ! i = Some g \<and> 0 < g"
    using gain_after_warm_up [OF i] by blast
  from RSI_after_warm_up [OF i] l0 g0 show "RSI closes ! i = Fin 100" by auto
qed

theorem rsi_bounded_witness:
  "14 < length [10, 11, 12, 13, 14, 15, 16, 17, 18, 19, 20, 21, 22, 23, 22 :: rat] \<and>
   loss [10, 11, 12, 13, 14, 15, 16, 17, 18, 19, 20, 21, 22, 23, 22] ! 14 = Some (1 / 14) \<and>
   (0::rat) < 1 / 14 \<and>
   RSI [10, 11, 12, 13, 14, 15, 16, 17, 18, 19, 20, 21, 22, 23, 22] ! 14 = Fin (650 / 7) \<and>
   (13::nat) \<le> 13 \<and>
   13 < length [10, 11, 12, 13, 14, 15, 16, 17, 18, 19, 20, 21, 22, 23 :: rat] \<and>
   sorted_wrt (<) [10, 11, 12, 13, 14, 15, 16, 17, 18, 19, 20, 21, 22, 23 :: rat] \<and>
   RSI [10, 11, 12, 13, 14, 15, 16, 17, 18, 19, 20, 21, 22, 23] ! 13 = Fin 100"
proof -
  let ?c = "[10, 11, 12, 13, 14, 15, 16, 17, 18, 19, 20, 21, 22, 23, 22 :: rat]"
  let ?d = "[10, 11, 12, 13, 14, 15, 16, 17, 18, 19, 20, 21, 22, 23 :: rat]"
  have l: "loss ?c ! 14 = Some (1 / 14)" by code_simp
  have g: "gain ?c ! 14 = Some (13 / 14)" by code_simp
  have prem: "14 < length ?c \<and> loss ?c ! 14 = Some (1 / 14) \<and> (0::rat) < 1 / 14"
    using l by simp
  from rsi_bounded [of 14 ?c] have
    "\<forall>l. 14 < length ?c \<and> loss ?c ! 14 = Some l \<and> 0 < l \<longrightarrow>
      (\<exists>g r. gain ?c ! 14 = Some g \<and> RSI ?c ! 14 = Fin r \<and>
             r = 100 * g / (g + l) \<and> 0 \<le> r \<and> r \<le> 100)"
    by (rule conjunct1)
  then have "14 < length ?c \<and> loss ?c ! 14 = Some (1 / 14) \<and> (0::rat) < 1 / 14 \<longrightarrow>
      (\<exists>g r. gain ?c ! 14 = Some g \<and> RSI ?c ! 14 = Fin r \<and>
             r = 100 * g / (g + 1 / 14) \<and> 0 \<le> r \<and> r \<le> 100)"
    by (rule spec)
  from this prem obtain g' r where
    gr: "gain ?c ! 14 = Some g'" "RSI ?c ! 14 = Fin r" "r = 100 * g' / (g' + 1 / 14)"
    by blast
  from gr(1) g have "g' = 13 / 14" by (simp only: option.inject)
  with gr(3) have "r = 650 / 7" by simp
  with gr(2) have first: "RSI ?c ! 14 = Fin (650 / 7)" by simp
  have inc: "\<forall>j. 13 - 13 \<le> j \<and> j \<le> 13 \<and> 0 < j \<longrightarrow> ?d ! (j - 1) < ?d ! j"
  proof (intro allI impI)
    fix j :: nat
    assume "13 - 13 \<le> j \<and> j \<le> 13 \<and> 0 < j"
    then have "j = 1 \<or> j = 2 \<or> j = 3 \<or> j = 4 \<or> j = 5 \<or> j = 6 \<or> j = 7 \<or> j = 8 \<or>
        j = 9 \<or> j = 10 \<or> j = 11 \<or> j = 12 \<or> j = 13"
      by arith
    then show "?d ! (j - 1) < ?d ! j" by (elim disjE) simp_all
  qed
  from rsi_bounded [of 13 ?d] have
    "13 \<le> (13::nat) \<and> 13 < length ?d \<and>
      (\<forall>j. 13 - 13 \<le> j \<and> j \<le> 13 \<and> 0 < j \<longrightarrow> ?d ! (j - 1) < ?d ! j) \<longrightarrow>
      RSI ?d ! 13 = Fin 100"
    by (rule conjunct2)
  with inc have second: "RSI ?d ! 13 = Fin 100" by simp
  have "sorted_wrt (<) ?d" by simp
  with prem first second show ?thesis by simp
qed

subsection \<open>EMA\<close>


lemma length_ewm_loop: "length (ewm_loop f a w vals) = length vals"
  by (induction vals arbitrary: w) (simp_all add: Let_def)

lemma ewm_loop_step:
  "i < length vals \<Longrightarrow>
   ewm_loop (1 - a) a w vals ! i =
     a * vals ! i + (1 - a) * (if i = 0 then w else ewm_loop (1 - a) a w vals ! (i - 1))"
proof (induction vals arbitrary: w i)
  case Nil
  then show ?case by simp
next
  case (Cons cur vals)
  show ?case
  proof (cases i)
    case 0
    then show ?thesis by (simp add: Let_def algebra_simps)
  next
    case (Suc j)
    with Cons.prems have "j < length vals" by simp
    from Cons.IH [OF this] Suc show ?thesis
      by (cases j) (simp_all add: Let_def)
  qed
qed

lemma length_ewm_mean: "length (ewm_mean s vals) = length vals"
  by (cases vals) (simp_all add: ewm_mean_def Let_def length_ewm_loop)

lemma ewm_mean_50_Cons:
  "ewm_mean 50 (v # rest) = v # ewm_loop (1 - 2 / 51) (2 / 51) v rest"
  by (simp add: ewm_mean_def Let_def)

lemma ewm_mean_50_nth:
  "i < length closes \<Longrightarrow> ewm_mean 50 closes ! i = ema_spec (2 / 51) closes i"
proof (induction i)
  case 0
  then show ?case by (cases closes) (simp_all add: ewm_mean_def Let_def)
next
  case (Suc i)
  then obtain v rest where c: "closes = v # rest" by (cases closes) auto
  with Suc.prems have i: "i < length rest" by simp
  have "ewm_mean 50 closes ! Suc i = ewm_loop (1 - 2 / 51) (2 / 51) v rest ! i"
    by (simp add: c ewm_mean_50_Cons)
  also have "\<dots> = 2 / 51 * rest ! i +
      (1 - 2 / 51) * (if i = 0 then v else ewm_loop (1 - 2 / 51) (2 / 51) v rest ! (i - 1))"
    by (rule ewm_loop_step [OF i])
  also have "(if i = 0 then v else ewm_loop (1 - 2 / 51) (2 / 51) v rest ! (i - 1)) =
      ewm_mean 50 closes ! i"
    by (cases i) (simp_all add: c ewm_mean_50_Cons)
  also have "ewm_mean 50 closes ! i = ema_spec (2 / 51) closes i"
    using Suc.IH Suc.prems by simp
  finally show ?case by (simp add: c)
qed

text \<open>
  Claim C5. The EMA_50 column has one entry per close; the first is the first close and
  each later one is \<open>alpha * close + (1 - alpha) * previous EMA\<close> with
  \<open>alpha = 2 / (50 + 1)\<close>.
\<close>

theorem ema_50_recurrence:
  "length (EMA_50 closes) = length closes \<and>
   (\<forall>i < length closes. EMA_50 closes ! i = ema_spec (2 / (50 + 1)) closes i)"
  by (simp add: EMA_50_def length_ewm_mean ewm_mean_50_nth)

theorem ema_50_recurrence_witness:
  "(2::nat) < length [10, 11, 12 :: rat] \<and> EMA_50 [10, 11, 12] ! 2 = 26312 / 2601"
  using ema_50_recurrence [of "[10, 11, 12]"] by (simp add: numeral_2_eq_2)

lemma ewm_loop_constant: "ewm_loop f a c (replicate n c) = replicate n c"
  by (induction n) (simp_all add: Let_def)

text \<open>
  Claim C6. The EMA_50 column of a constant close series of any length is that constant
  at every position.
\<close>

theorem ema_50_constant: "EMA_50 (replicate n c) = replicate n c"
  by (cases n) (simp_all add: EMA_50_def ewm_mean_def Let_def ewm_loop_constant)

subsection \<open>The rendered table\<close>






lemma fl_rnd_not_NaN: "fl_rnd rnd q \<noteq> NaN"
  by (simp add: fl_rnd_def split: option.splits)




text \<open>
  The double nearest to 2.675 lies below it, but its float product with 100 is 267.5,
  which \<^verbatim>\<open>rint\<close> takes to 268: \<^verbatim>\<open>round(2)\<close> shows 2.68.
\<close>

lemma round2_binary64_tie:
  "binary64 (2675 / 1000) = Some (3011782250804019 / 1125899906842624) \<and>
   round2 binary64 (Fin (3011782250804019 / 1125899906842624)) = fl_rnd binary64 (268 / 100)"
  by code_simp




subsection \<open>The tools\<close>

lemma try_except_cases:
  "try_except body (\<lambda>e. Inr (p @ str e)) =
     (case body of
        Inl e \<Rightarrow> if isinstance_Exception e then Inr (p @ str e) else Inl e
      | Inr s \<Rightarrow> Inr s)"
  by (simp add: try_except_def)

text \<open>
  Claim C7. When the provider returns a frame without rows, the price tool returns
  exactly the text "Error: Could not fetch data.", whatever the rendering function is:
  the result does not depend on the resampling, the indicators or the rendering.
\<close>

theorem empty_history_error:
  "yf_history ''GC=F'' ''1mo'' ''1h'' = Inr [] \<Longrightarrow>
   XAUPriceFetchTool_run rnd yf_history to_string query = Inr ''Error: Could not fetch data.''"
  by (simp add: XAUPriceFetchTool_run_def XAUPriceFetchTool_body_def try_except_def)

theorem empty_history_error_witness:
  "(\<lambda>t p i. Inr []) ''GC=F'' ''1mo'' ''1h'' = (Inr [] :: bar list py) \<and>
   XAUPriceFetchTool_run binary64 (\<lambda>t p i. Inr []) (\<lambda>rows. ''table'') ''gold''
     = Inr ''Error: Could not fetch data.''"
  using empty_history_error [of "\<lambda>t p i. Inr []" binary64 "\<lambda>rows. ''table''" "''gold''"] by simp

text \<open>
  Claim C8. When the search yields no result, the news tool returns a text that
  contains "Assume Neutral" and does not contain "NEWS TITLE".
\<close>

theorem no_results_neutral:
  "ddgs_text query 3 ''d'' = Inr [] \<Longrightarrow>
   \<exists>s. NewsSearchTool_run ddgs_text query = Inr s \<and>
       sublist ''Assume Neutral'' s \<and> \<not> sublist ''NEWS TITLE'' s"
proof -
  assume "ddgs_text query 3 ''d'' = Inr []"
  then have "NewsSearchTool_run ddgs_text query =
      Inr ''No news found in the last 24 hours. Assume Neutral.''"
    by (simp add: NewsSearchTool_run_def NewsSearchTool_body_def try_except_def)
  moreover have "sublist ''Assume Neutral'' ''No news found in the last 24 hours. Assume Neutral.''"
    by code_simp
  moreover have "\<not> sublist ''NEWS TITLE'' ''No news found in the last 24 hours. Assume Neutral.''"
    by code_simp
  ultimately show ?thesis by simp
qed

theorem no_results_neutral_witness:
  "(\<lambda>q n t. Inr []) ''Gold Price News'' (3::nat) ''d'' = (Inr [] :: result list py) \<and>
   (\<exists>s. NewsSearchTool_run (\<lambda>q n t. Inr []) ''Gold Price News'' = Inr s \<and>
        sublist ''Assume Neutral'' s \<and> \<not> sublist ''NEWS TITLE'' s)"
  using no_results_neutral [of "\<lambda>q n t. Inr []" "''Gold Price News''"] by simp

text \<open>
  Claim C9, as the program has it. When the body of a tool raises an instance \<open>e\<close> of
  \<^verbatim>\<open>Exception\<close>, the price tool returns "Error processing data: " followed by
  \<open>str e\<close> and the news tool returns "Search Error: " followed by \<open>str e\<close>; when the
  body returns a text, the tool returns it. A tool raises only an exception of its body
  that is not an instance of \<^verbatim>\<open>Exception\<close>.
\<close>

theorem tools_catch_Exception:
  "(\<forall>e. XAUPriceFetchTool_body rnd yf_history to_string query = Inl e \<and> isinstance_Exception e \<longrightarrow>
        XAUPriceFetchTool_run rnd yf_history to_string query =
          Inr (''Error processing data: '' @ str e)) \<and>
   (\<forall>e. NewsSearchTool_body ddgs_text query = Inl e \<and> isinstance_Exception e \<longrightarrow>
        NewsSearchTool_run ddgs_text query = Inr (''Search Error: '' @ str e)) \<and>
   (\<forall>s. XAUPriceFetchTool_body rnd yf_history to_string query = Inr s \<longrightarrow>
        XAUPriceFetchTool_run rnd yf_history to_string query = Inr s) \<and>
   (\<forall>s. NewsSearchTool_body ddgs_text query = Inr s \<longrightarrow>
        NewsSearchTool_run ddgs_text query = Inr s) \<and>
   (\<forall>e. XAUPriceFetchTool_run rnd yf_history to_string query = Inl e \<longrightarrow>
        \<not> isinstance_Exception e \<and>
        XAUPriceFetchTool_body rnd yf_history to_string query = Inl e) \<and>
   (\<forall>e. NewsSearchTool_run ddgs_text query = Inl e \<longrightarrow>
        \<not> isinstance_Exception e \<and> NewsSearchTool_body ddgs_text query = Inl e)"
  unfolding XAUPriceFetchTool_run_def NewsSearchTool_run_def try_except_cases
  by (auto split: sum.splits if_splits)

theorem tools_catch_Exception_witness:
  "XAUPriceFetchTool_body binary64 failing_provider no_rendering ''gold''
     = Inl (Exception ''timeout'') \<and>
   isinstance_Exception (Exception ''timeout'') \<and>
   XAUPriceFetchTool_run binary64 failing_provider no_rendering ''gold''
     = Inr ''Error processing data: timeout'' \<and>
   NewsSearchTool_body failing_search ''gold'' = Inl (Exception ''timeout'') \<and>
   NewsSearchTool_run failing_search ''gold'' = Inr ''Search Error: timeout''"
  using tools_catch_Exception [of binary64 failing_provider no_rendering "''gold''" failing_search]
  by (simp add: XAUPriceFetchTool_body_def NewsSearchTool_body_def failing_provider_def
      failing_search_def)

text \<open>
  A \<^verbatim>\<open>KeyboardInterrupt\<close> raised while the provider is called is not caught by
  \<^verbatim>\<open>except Exception\<close>: both tools propagate it to their caller.
\<close>

theorem interrupt_propagates:
  "XAUPriceFetchTool_run binary64 interrupted_provider no_rendering ''gold''
     = Inl (BaseException ''KeyboardInterrupt'') \<and>
   NewsSearchTool_run interrupted_search ''gold'' = Inl (BaseException ''KeyboardInterrupt'')"
  by (simp add: XAUPriceFetchTool_run_def XAUPriceFetchTool_body_def NewsSearchTool_run_def
      NewsSearchTool_body_def try_except_def interrupted_provider_def interrupted_search_def)

text \<open>
  Claim C10. The price tool asks the provider for ticker "GC=F", period "1mo" and
  interval "1h" only, and ignores its query: two providers that agree on that request
  give the same output for any two queries.
\<close>

theorem query_ignored:
  "yf_history ''GC=F'' ''1mo'' ''1h'' = yf_history' ''GC=F'' ''1mo'' ''1h'' \<Longrightarrow>
   XAUPriceFetchTool_run rnd yf_history to_string q1 =
   XAUPriceFetchTool_run rnd yf_history' to_string q2"
  by (simp add: XAUPriceFetchTool_run_def XAUPriceFetchTool_body_def)

theorem query_ignored_witness:
  "(\<lambda>t p i. Inr []) ''GC=F'' ''1mo'' ''1h''
     = (\<lambda>t p i. if t = ''GC=F'' then Inr [] else Inl (Exception ''no such ticker''))
         ''GC=F'' ''1mo'' ''1h'' \<and>
   XAUPriceFetchTool_run binary64 (\<lambda>t p i. Inr []) (\<lambda>rows. ''table'') ''gold''
     = XAUPriceFetchTool_run binary64
         (\<lambda>t p i. if t = ''GC=F'' then Inr [] else Inl (Exception ''no such ticker''))
         (\<lambda>rows. ''table'') ''EURUSD=X, 1d''"
  using query_ignored [of "\<lambda>t p i. Inr []"
      "\<lambda>t p i. if t = ''GC=F'' then Inr [] else Inl (Exception ''no such ticker'')"
      binary64 "\<lambda>rows. ''table''" "''gold''" "''EURUSD=X, 1d''"]
  by simp

end
